theory Spec2Isabelle
  imports Complex_Main "HOL-Library.Word"
begin

section \<open>Values of the language\<close>

text \<open>
  A string of the source language is a sequence of 16-bit code units, and its
  \<open>length\<close> counts code units. \<open>ascii\<close> writes such a string from a literal.
\<close>

type_synonym jsstring = "16 word list"

definition ascii :: "string \<Rightarrow> jsstring" where
  "ascii s = map (\<lambda>c. of_nat (of_char c)) s"

text \<open>
  A \<open>number\<close> of the source language: not-a-number, the two infinities, or a finite
  value. Every finite double is a rational, so \<open>Fin\<close> ranges over a superset of the
  finite doubles (the negative zero is identified with zero: no comparison tells them
  apart).
\<close>

datatype number = NaN | NegInf | Fin rat | PosInf

text \<open>The comparison \<open>a <= b\<close> of two numbers; any comparison with \<open>NaN\<close> is false.\<close>

fun num_le :: "number \<Rightarrow> number \<Rightarrow> bool" where
  "num_le NaN _ = False"
| "num_le _ NaN = False"
| "num_le NegInf _ = True"
| "num_le _ PosInf = True"
| "num_le (Fin a) (Fin b) = (a \<le> b)"
| "num_le PosInf _ = False"
| "num_le _ NegInf = False"

text \<open>\<open>a >= b\<close> of the source.\<close>

definition num_ge :: "number \<Rightarrow> number \<Rightarrow> bool" where
  "num_ge a b = num_le b a"

section \<open>The project model\<close>

text \<open>\<open>enum ProjectStatus { Active, Finished }\<close>\<close>

datatype ProjectStatus = Active | Finished

text \<open>
  \<open>class Project\<close>: the five public fields of the constructor. The field \<open>id\<close> is
  written \<open>id_f\<close>.
\<close>

record Project =
  id_f :: jsstring
  title :: jsstring
  description :: jsstring
  people :: number
  status :: ProjectStatus

text \<open>\<open>interface UserInput\<close>, the argument of \<open>addProject\<close>.\<close>

record UserInput =
  title :: jsstring
  description :: jsstring
  people :: number

section \<open>The store and its heap\<close>

text \<open>
  Objects and arrays of the source have identity: \<open>[...this.projects]\<close> makes a new
  array whose elements are the same \<open>Project\<close> objects. The model therefore keeps an
  explicit heap. An object reference and an array reference are addresses; \<open>objs\<close>
  maps an object address to the fields of the \<open>Project\<close> there, \<open>arrs\<close> maps an array
  address to the object references the array holds, in order. Addresses below
  \<open>next_obj\<close> (\<open>next_arr\<close>) are the allocated ones; allocation takes the counter's
  value and increments the counter.

  A listener is an opaque callback. The model names each callback by a value of type
  \<open>'l\<close>, and an invocation \<open>listenerFn(a)\<close> is recorded in the log \<open>calls\<close> as the pair
  of the callback and the array reference it was passed. What a callback does with
  the array afterwards is a separate operation on the heap (see below). A callback
  that throws, or that calls the store while it is being notified, is outside the
  model.
\<close>

type_synonym oref = nat
type_synonym aref = nat

record 'l world =
  objs :: "oref \<Rightarrow> Project"
  next_obj :: nat
  arrs :: "aref \<Rightarrow> oref list"
  next_arr :: nat
  listeners :: "'l list"
  projects :: aref
  calls :: "('l \<times> aref) list"

text \<open>
  \<open>new ProjectState()\<close> (reached once, through \<open>getInstance\<close>): the field
  initialisers \<open>listeners = []\<close> and \<open>projects = []\<close>. The array of the projects is
  allocated at address 0.
\<close>

definition blank_project :: Project where
  "blank_project = \<lparr>id_f = [], title = [], description = [], people = NaN, status = Active\<rparr>"

definition init :: "'l world" where
  "init = \<lparr>objs = (\<lambda>_. blank_project), next_obj = 0,
            arrs = (\<lambda>_. []), next_arr = 1,
            listeners = [], projects = 0, calls = []\<rparr>"

text \<open>\<open>addListener(fn) { this.listeners.push(fn); }\<close>\<close>

definition addListener :: "'l \<Rightarrow> 'l world \<Rightarrow> 'l world" where
  "addListener fn w = w\<lparr>listeners := listeners w @ [fn]\<rparr>"

text \<open>
  One round of the loop of \<open>updateListeners\<close>: \<open>listenerFn([...this.projects])\<close>.
  The spread allocates a new array holding the references of the projects' array,
  and the callback is invoked on it.
\<close>

definition call_listener :: "'l \<Rightarrow> 'l world \<Rightarrow> 'l world" where
  "call_listener listenerFn w =
     (let a = next_arr w
      in w\<lparr>arrs := (arrs w)(a := arrs w (projects w)),
            next_arr := Suc a,
            calls := calls w @ [(listenerFn, a)]\<rparr>)"

text \<open>\<open>for (const listenerFn of this.listeners) { ... }\<close>\<close>

fun notify :: "'l list \<Rightarrow> 'l world \<Rightarrow> 'l world" where
  "notify [] w = w"
| "notify (listenerFn # rest) w = notify rest (call_listener listenerFn w)"

definition updateListeners :: "'l world \<Rightarrow> 'l world" where
  "updateListeners w = notify (listeners w) w"

text \<open>The object \<open>new Project(id, obj.title, obj.description, obj.people, ProjectStatus.Active)\<close>.\<close>

definition new_record :: "jsstring \<Rightarrow> UserInput \<Rightarrow> Project" where
  "new_record rid obj = \<lparr>id_f = rid, title = UserInput.title obj,
                        description = UserInput.description obj,
                        people = UserInput.people obj, status = Active\<rparr>"

text \<open>
  \<open>addProject(obj)\<close>. The argument \<open>rid\<close> is the string that
  \<open>Math.random().toString()\<close> evaluates to in this call. The new \<open>Project\<close> object is
  allocated, its reference is pushed on the projects' array, and the listeners are
  updated.
\<close>

definition addProject :: "jsstring \<Rightarrow> UserInput \<Rightarrow> 'l world \<Rightarrow> 'l world" where
  "addProject rid obj w =
     (let r = next_obj w;
          newProject = new_record rid obj;
          w1 = w\<lparr>objs := (objs w)(r := newProject), next_obj := Suc r\<rparr>;
          w2 = w1\<lparr>arrs := (arrs w1)(projects w1 := arrs w1 (projects w1) @ [r])\<rparr>
      in updateListeners w2)"

text \<open>
  \<open>moveProject(projectId, newStatus)\<close>. \<open>Array.prototype.find\<close> returns the first
  element that satisfies the predicate, or \<open>undefined\<close>, which is falsy.
\<close>

definition moveProject :: "jsstring \<Rightarrow> ProjectStatus \<Rightarrow> 'l world \<Rightarrow> 'l world" where
  "moveProject projectId newStatus w =
     (case find (\<lambda>prj. id_f (objs w prj) = projectId) (arrs w (projects w)) of
        Some currentProject \<Rightarrow>
          if status (objs w currentProject) \<noteq> newStatus
          then updateListeners
                 (w\<lparr>objs := (objs w)(currentProject :=
                               (objs w currentProject)\<lparr>status := newStatus\<rparr>)\<rparr>)
          else w
      | None \<Rightarrow> w)"

text \<open>The records of the store, in the order of its array: what the store holds.\<close>

definition store_refs :: "'l world \<Rightarrow> oref list" where
  "store_refs w = arrs w (projects w)"

definition store_records :: "'l world \<Rightarrow> Project list" where
  "store_records w = map (objs w) (store_refs w)"

text \<open>The records an array holds, read through the heap.\<close>

definition array_records :: "'l world \<Rightarrow> aref \<Rightarrow> Project list" where
  "array_records w a = map (objs w) (arrs w a)"

text \<open>The invocations made between two states: the log grows at its end.\<close>

definition new_calls :: "'l world \<Rightarrow> 'l world \<Rightarrow> ('l \<times> aref) list" where
  "new_calls w w' = drop (length (calls w)) (calls w')"

section \<open>Sequences of calls\<close>

text \<open>
  The public operations of the store, as a caller issues them. \<open>AddProject rid obj\<close>
  carries the string \<open>rid\<close> that \<open>Math.random().toString()\<close> yields in that call.
\<close>

datatype 'l op =
    AddListener 'l
  | AddProject jsstring UserInput
  | MoveProject jsstring ProjectStatus

fun exec :: "'l op \<Rightarrow> 'l world \<Rightarrow> 'l world" where
  "exec (AddListener fn) w = addListener fn w"
| "exec (AddProject rid obj) w = addProject rid obj w"
| "exec (MoveProject projectId newStatus) w = moveProject projectId newStatus w"

fun run :: "'l op list \<Rightarrow> 'l world \<Rightarrow> 'l world" where
  "run [] w = w"
| "run (c # cs) w = run cs (exec c w)"

text \<open>The strings drawn by the \<open>addProject\<close> calls of a sequence, in order.\<close>

fun draws :: "'l op list \<Rightarrow> jsstring list" where
  "draws [] = []"
| "draws (AddProject rid obj # cs) = rid # draws cs"
| "draws (AddListener fn # cs) = draws cs"
| "draws (MoveProject projectId newStatus # cs) = draws cs"

text \<open>
  The invariant of the heap that every sequence of calls keeps: the store's array is
  allocated, it holds allocated objects only, every array passed to a listener is
  allocated and is not the store's array, and no two invocations were passed the
  same array.
\<close>

definition heap_ok :: "'l world \<Rightarrow> bool" where
  "heap_ok w \<longleftrightarrow>
     projects w < next_arr w \<and>
     (\<forall>r \<in> set (store_refs w). r < next_obj w) \<and>
     (\<forall>c \<in> set (calls w). snd c < next_arr w \<and> snd c \<noteq> projects w) \<and>
     distinct (map snd (calls w))"

text \<open>
  The condition under which \<open>moveProject\<close> acts, read on the records of the store:
  the first record with the given id exists and its status is not the new one.
\<close>

definition moves :: "jsstring \<Rightarrow> ProjectStatus \<Rightarrow> 'l world \<Rightarrow> bool" where
  "moves projectId newStatus w =
     (case find (\<lambda>p. id_f p = projectId) (store_records w) of
        Some p \<Rightarrow> status p \<noteq> newStatus
      | None \<Rightarrow> False)"

text \<open>
  The same condition as the specification words it: a record with that id exists
  and its current status differs from the new one.
\<close>

definition spec_moves :: "jsstring \<Rightarrow> ProjectStatus \<Rightarrow> 'l world \<Rightarrow> bool" where
  "spec_moves projectId newStatus w \<longleftrightarrow>
     (\<exists>p \<in> set (store_records w). id_f p = projectId \<and> status p \<noteq> newStatus)"

section \<open>What a listener can do to the array it was passed\<close>

text \<open>
  A change to the array object itself (\<open>push\<close>, \<open>pop\<close>, \<open>splice\<close>, \<open>sort\<close>,
  \<open>a[i] = r\<close>, \<open>a.length = n\<close>): afterwards the array at address \<open>a\<close> holds some
  sequence \<open>xs\<close> of references, and nothing else of the heap has changed.
\<close>

definition array_assign :: "aref \<Rightarrow> oref list \<Rightarrow> 'l world \<Rightarrow> 'l world" where
  "array_assign a xs w = w\<lparr>arrs := (arrs w)(a := xs)\<rparr>"

text \<open>
  \<open>a[i].status = s\<close>: a write to the object the element refers to. Reading past the
  end of the array yields \<open>undefined\<close>, and the assignment throws a \<open>TypeError\<close>:
  \<open>None\<close>.
\<close>

definition set_status_at :: "aref \<Rightarrow> nat \<Rightarrow> ProjectStatus \<Rightarrow> 'l world \<Rightarrow> 'l world option" where
  "set_status_at a i s w =
     (if i < length (arrs w a)
      then let r = arrs w a ! i
           in Some (w\<lparr>objs := (objs w)(r := (objs w r)\<lparr>status := s\<rparr>)\<rparr>)
      else None)"

section \<open>Validation and the form\<close>

text \<open>
  The two built-in conversions the form's code uses are parameters of the model:
  \<open>ToNumber\<close> is the unary \<open>+\<close> applied to a string, \<open>NumberToString\<close> is
  \<open>toString()\<close> of a number. Every theorem below holds for all such functions.
\<close>

record builtins =
  ToNumber :: "jsstring \<Rightarrow> number"
  NumberToString :: "number \<Rightarrow> jsstring"

text \<open>A value of type \<open>string | number\<close>; \<open>typeof\<close> tells the two cases apart.\<close>

datatype jsvalue = Str jsstring | Num number

definition toString :: "builtins \<Rightarrow> jsvalue \<Rightarrow> jsstring" where
  "toString b v = (case v of Str s \<Rightarrow> s | Num n \<Rightarrow> NumberToString b n)"

text \<open>
  The code units that \<open>String.prototype.trim\<close> removes: the white space and line
  terminator code points of the language, all of them single code units.
\<close>

definition isWhiteSpace :: "16 word \<Rightarrow> bool" where
  "isWhiteSpace c \<longleftrightarrow>
     c \<in> set [0x0009, 0x000A, 0x000B, 0x000C, 0x000D, 0x0020, 0x00A0, 0x1680,
               0x2000, 0x2001, 0x2002, 0x2003, 0x2004, 0x2005, 0x2006, 0x2007,
               0x2008, 0x2009, 0x200A, 0x2028, 0x2029, 0x202F, 0x205F, 0x3000,
               0xFEFF]"

definition trim :: "jsstring \<Rightarrow> jsstring" where
  "trim s = rev (dropWhile isWhiteSpace (rev (dropWhile isWhiteSpace s)))"

text \<open>
  \<open>interface Validate\<close>. An optional field that is absent is \<open>None\<close>. The fields
  \<open>value\<close>, \<open>min\<close> and \<open>max\<close> are written with the suffix \<open>_f\<close>.
\<close>

record Validate =
  value_f :: jsvalue
  required :: "bool option"
  minLength :: "number option"
  maxLength :: "number option"
  min_f :: "number option"
  max_f :: "number option"

text \<open>
  \<open>validate(input)\<close>: the five guarded updates of \<open>isValid\<close>, in the order of the
  source. \<open>if (input.required)\<close> holds for \<open>true\<close> only; \<open>x != null\<close> holds when the
  optional field is present.
\<close>

definition validate :: "builtins \<Rightarrow> Validate \<Rightarrow> bool" where
  "validate b input =
     (let isValid = True;
          isValid = (if required input = Some True
                     then isValid \<and> length (trim (toString b (value_f input))) \<noteq> 0
                     else isValid);
          isValid = (case (minLength input, value_f input) of
                       (Some m, Str s) \<Rightarrow>
                         isValid \<and> num_ge (Fin (of_nat (length (trim s)))) m
                     | _ \<Rightarrow> isValid);
          isValid = (case (maxLength input, value_f input) of
                       (Some m, Str s) \<Rightarrow>
                         isValid \<and> num_le (Fin (of_nat (length (trim s)))) m
                     | _ \<Rightarrow> isValid);
          isValid = (case (min_f input, value_f input) of
                       (Some m, Num n) \<Rightarrow> isValid \<and> num_ge n m
                     | _ \<Rightarrow> isValid);
          isValid = (case (max_f input, value_f input) of
                       (Some m, Num n) \<Rightarrow> isValid \<and> num_le n m
                     | _ \<Rightarrow> isValid)
      in isValid)"

text \<open>
  \<open>class ProjectInput\<close>: the \<open>value\<close> of each of its three input elements. The page
  holds the component, the store \<open>projectState\<close> and the lines written by
  \<open>console.log\<close>.
\<close>

record ProjectInput =
  titleInputEl :: jsstring
  descriptionInputEl :: jsstring
  peopleInputEl :: jsstring

record 'l page =
  project :: ProjectInput
  projectState :: "'l world"
  console :: "string list"

definition clearInputs :: "ProjectInput \<Rightarrow> ProjectInput" where
  "clearInputs el = el\<lparr>titleInputEl := [], descriptionInputEl := [], peopleInputEl := []\<rparr>"

text \<open>
  \<open>gatherUserInput()\<close>: the three validators, the disjunction of the three failed
  validations, the log line and the early return (\<open>None\<close>), else the tuple.
\<close>

definition gatherUserInput ::
  "builtins \<Rightarrow> 'l page \<Rightarrow> (jsstring \<times> jsstring \<times> number) option \<times> 'l page" where
  "gatherUserInput b pg =
     (let title = titleInputEl (project pg);
          description = descriptionInputEl (project pg);
          people = peopleInputEl (project pg);
          titleValidator = \<lparr>value_f = Str title, required = Some True,
                             minLength = None, maxLength = None,
                             min_f = None, max_f = None\<rparr>;
          descValidator = \<lparr>value_f = Str description, required = Some True,
                            minLength = Some (Fin 5), maxLength = None,
                            min_f = None, max_f = None\<rparr>;
          peopleValidator = \<lparr>value_f = Num (ToNumber b people), required = Some True,
                              minLength = None, maxLength = None,
                              min_f = Some (Fin 1), max_f = Some (Fin 5)\<rparr>
      in if \<not> validate b titleValidator \<or> \<not> validate b descValidator
            \<or> \<not> validate b peopleValidator
         then (None, pg\<lparr>console := console pg @ [''Input is wrong!'']\<rparr>)
         else (Some (title, description, ToNumber b people), pg))"

text \<open>
  \<open>submitHandler(event)\<close>. \<open>rid\<close> is the string \<open>Math.random().toString()\<close> yields
  if \<open>addProject\<close> is reached.
\<close>

definition submitHandler :: "builtins \<Rightarrow> jsstring \<Rightarrow> 'l page \<Rightarrow> 'l page" where
  "submitHandler b rid pg =
     (case gatherUserInput b pg of
        (Some (title', desc, people'), pg1) \<Rightarrow>
          pg1\<lparr>projectState :=
                 addProject rid \<lparr>title = title', description = desc, people = people'\<rparr>
                   (projectState pg1),
               project := clearInputs (project pg1)\<rparr>
      | (None, pg1) \<Rightarrow> pg1)"

section \<open>What the form accepts\<close>

text \<open>
  What the three validators of \<open>gatherUserInput\<close> require of the three fields,
  written out: the title is not empty after trimming, the description has at least
  five code units after trimming, and the number the people field converts to has a
  string form that is not empty after trimming and lies between 1 and 5. Lemma
  \<open>gatherUserInput_eq\<close> derives it from \<open>validate\<close>.
\<close>

definition accepts :: "builtins \<Rightarrow> ProjectInput \<Rightarrow> bool" where
  "accepts b el \<longleftrightarrow>
     trim (titleInputEl el) \<noteq> [] \<and>
     5 \<le> length (trim (descriptionInputEl el)) \<and>
     trim (NumberToString b (ToNumber b (peopleInputEl el))) \<noteq> [] \<and>
     num_le (Fin 1) (ToNumber b (peopleInputEl el)) \<and>
     num_le (ToNumber b (peopleInputEl el)) (Fin 5)"

text \<open>
  The validity of the form as the specification words it: the title is not empty,
  the description is not empty and has at least five code units, and the people
  count is an integer between 1 and 5.
\<close>

definition spec_accepts :: "builtins \<Rightarrow> ProjectInput \<Rightarrow> bool" where
  "spec_accepts b el \<longleftrightarrow>
     titleInputEl el \<noteq> [] \<and>
     descriptionInputEl el \<noteq> [] \<and> 5 \<le> length (descriptionInputEl el) \<and>
     ToNumber b (peopleInputEl el) \<in> {Fin 1, Fin 2, Fin 3, Fin 4, Fin 5}"

section \<open>Example states\<close>

text \<open>
  The two list views of the page register one listener each, named here by the
  type of the view; then one project is added. \<open>same_id_twice\<close> goes on with a
  second project for which the random source yields the same string, and moves the
  id to \<open>Finished\<close>; \<open>already_finished\<close> moves the one project to \<open>Finished\<close>.
\<close>

definition shed :: UserInput where
  "shed = \<lparr>title = ascii ''Build shed'', description = ascii ''Wooden shed construction'',
           people = Fin 3\<rparr>"

definition barn :: UserInput where
  "barn = \<lparr>title = ascii ''Paint barn'', description = ascii ''Two coats of red'',
           people = Fin 2\<rparr>"

definition two_views :: "string op list" where
  "two_views = [AddListener ''active'', AddListener ''finished'']"

definition one_project :: "string op list" where
  "one_project = two_views @ [AddProject (ascii ''0.5'') shed]"

definition same_id_twice :: "string op list" where
  "same_id_twice = one_project @ [AddProject (ascii ''0.5'') barn, MoveProject (ascii ''0.5'') Finished]"

definition already_finished :: "string op list" where
  "already_finished = one_project @ [MoveProject (ascii ''0.5'') Finished]"

text \<open>
  The values of the two conversions at the arguments the examples below use, as the
  language computes them: \<open>+"3"\<close> is 3, \<open>+"2.5"\<close> is 2.5, \<open>(3).toString()\<close> is
  \<open>"3"\<close>, \<open>(2.5).toString()\<close> is \<open>"2.5"\<close>. No example applies them elsewhere.
\<close>

definition example_builtins :: builtins where
  "example_builtins =
     \<lparr>ToNumber = (\<lambda>s. if s = ascii ''3'' then Fin 3
                       else if s = ascii ''2.5'' then Fin (5 / 2)
                       else NaN),
      NumberToString = (\<lambda>n. if n = Fin 3 then ascii ''3''
                             else if n = Fin (5 / 2) then ascii ''2.5''
                             else ascii ''NaN'')\<rparr>"

text \<open>
  Three states of the page: a title that is one space, a people count of 2.5, and a
  form filled in as the validators require.
\<close>

definition blank_title_page :: "string page" where
  "blank_title_page =
     \<lparr>project = \<lparr>titleInputEl = ascii '' '',
                  descriptionInputEl = ascii ''Wooden shed construction'',
                  peopleInputEl = ascii ''3''\<rparr>,
      projectState = run two_views init, console = []\<rparr>"

definition fractional_people_page :: "string page" where
  "fractional_people_page =
     \<lparr>project = \<lparr>titleInputEl = ascii ''Build shed'',
                  descriptionInputEl = ascii ''Wooden shed construction'',
                  peopleInputEl = ascii ''2.5''\<rparr>,
      projectState = run two_views init, console = []\<rparr>"

definition filled_page :: "string page" where
  "filled_page =
     \<lparr>project = \<lparr>titleInputEl = ascii ''Build shed'',
                  descriptionInputEl = ascii ''Wooden shed construction'',
                  peopleInputEl = ascii ''3''\<rparr>,
      projectState = run two_views init, console = []\<rparr>"

section \<open>Basic facts\<close>

lemma notify_calls:
  "calls (notify ls w) = calls w @ zip ls [next_arr w ..< next_arr w + length ls]"
proof (induction ls arbitrary: w)
  case Nil
  then show ?case by simp
next
  case (Cons l ls)
  have "[next_arr w ..< next_arr w + length (l # ls)] =
        next_arr w # [Suc (next_arr w) ..< Suc (next_arr w) + length ls]"
    by (simp add: upt_rec)
  then show ?case
    by (simp add: Cons.IH call_listener_def Let_def)
qed

lemma notify_frame [simp]:
  "objs (notify ls w) = objs w"
  "next_obj (notify ls w) = next_obj w"
  "listeners (notify ls w) = listeners w"
  "projects (notify ls w) = projects w"
  by (induction ls arbitrary: w) (simp_all add: call_listener_def Let_def)

lemma notify_next_arr [simp]: "next_arr (notify ls w) = next_arr w + length ls"
  by (induction ls arbitrary: w) (simp_all add: call_listener_def Let_def)

lemma notify_arrs:
  "arrs (notify ls w) a =
     (if next_arr w \<le> a \<and> a < next_arr w + length ls then arrs w (projects w) else arrs w a)"
  by (induction ls arbitrary: w) (auto simp: call_listener_def Let_def)

lemma notify_store_refs [simp]: "store_refs (notify ls w) = store_refs w"
  by (simp add: store_refs_def notify_arrs)

lemma notify_store_records [simp]: "store_records (notify ls w) = store_records w"
  by (simp add: store_records_def)

lemma new_calls_notify [simp]:
  "new_calls w (notify ls w) = zip ls [next_arr w ..< next_arr w + length ls]"
  by (simp add: new_calls_def notify_calls)

lemma find_map_records:
  "find P (map f xs) = map_option f (find (\<lambda>x. P (f x)) xs)"
  by (induction xs) simp_all

lemma moves_iff:
  "moves i s w =
     (case find (\<lambda>prj. id_f (objs w prj) = i) (arrs w (projects w)) of
        Some r \<Rightarrow> status (objs w r) \<noteq> s | None \<Rightarrow> False)"
  by (simp add: moves_def store_records_def store_refs_def find_map_records split: option.splits)

subsection \<open>The fields after \<open>addProject\<close>\<close>

lemma addProject_frame [simp]:
  "objs (addProject rid obj w) = (objs w)(next_obj w := new_record rid obj)"
  "next_obj (addProject rid obj w) = Suc (next_obj w)"
  "listeners (addProject rid obj w) = listeners w"
  "projects (addProject rid obj w) = projects w"
  "next_arr (addProject rid obj w) = next_arr w + length (listeners w)"
  by (simp_all add: addProject_def updateListeners_def Let_def new_record_def)

lemma addProject_store_refs [simp]:
  "store_refs (addProject rid obj w) = store_refs w @ [next_obj w]"
  by (simp add: addProject_def updateListeners_def Let_def)
     (simp add: store_refs_def)

lemma addProject_calls:
  "calls (addProject rid obj w) =
     calls w @ zip (listeners w) [next_arr w ..< next_arr w + length (listeners w)]"
  by (simp add: addProject_def updateListeners_def Let_def notify_calls)

lemma addProject_new_calls [simp]:
  "new_calls w (addProject rid obj w) =
     zip (listeners w) [next_arr w ..< next_arr w + length (listeners w)]"
  by (simp add: new_calls_def addProject_calls)

lemma addProject_arrs_new:
  "next_arr w \<le> a \<Longrightarrow> a < next_arr w + length (listeners w) \<Longrightarrow>
   arrs (addProject rid obj w) a = store_refs w @ [next_obj w]"
  by (simp add: addProject_def updateListeners_def Let_def notify_arrs store_refs_def)

lemma addProject_arrs_old:
  "a < next_arr w \<Longrightarrow> a \<noteq> projects w \<Longrightarrow> arrs (addProject rid obj w) a = arrs w a"
  by (simp add: addProject_def updateListeners_def Let_def notify_arrs)

subsection \<open>The fields after \<open>moveProject\<close>\<close>

lemma moveProject_noop: "\<not> moves i s w \<Longrightarrow> moveProject i s w = w"
  by (auto simp: moves_iff moveProject_def split: option.splits)

lemma moveProject_frame [simp]:
  "next_obj (moveProject i s w) = next_obj w"
  "listeners (moveProject i s w) = listeners w"
  "projects (moveProject i s w) = projects w"
  "store_refs (moveProject i s w) = store_refs w"
  by (simp_all add: moveProject_def updateListeners_def split: option.splits)
     (simp add: store_refs_def)

lemma moveProject_objs:
  "objs (moveProject i s w) r =
     (if moves i s w \<and> find (\<lambda>prj. id_f (objs w prj) = i) (store_refs w) = Some r
      then (objs w r)\<lparr>status := s\<rparr> else objs w r)"
  by (auto simp: moves_iff moveProject_def updateListeners_def store_refs_def split: option.splits)

lemma moveProject_calls:
  "calls (moveProject i s w) =
     (if moves i s w
      then calls w @ zip (listeners w) [next_arr w ..< next_arr w + length (listeners w)]
      else calls w)"
  by (auto simp: moves_iff moveProject_def updateListeners_def notify_calls split: option.splits)

lemma moveProject_next_arr:
  "next_arr (moveProject i s w) =
     (if moves i s w then next_arr w + length (listeners w) else next_arr w)"
  by (auto simp: moves_iff moveProject_def updateListeners_def split: option.splits)

lemma moveProject_arrs:
  "arrs (moveProject i s w) a =
     (if moves i s w \<and> next_arr w \<le> a \<and> a < next_arr w + length (listeners w)
      then store_refs w else arrs w a)"
  by (auto simp: moves_iff moveProject_def updateListeners_def notify_arrs store_refs_def
      split: option.splits)

subsection \<open>The invariant is kept\<close>

lemma heap_ok_init: "heap_ok init"
  by (simp add: heap_ok_def init_def store_refs_def)

lemma heap_ok_addListener: "heap_ok w \<Longrightarrow> heap_ok (addListener fn w)"
  by (simp add: heap_ok_def addListener_def store_refs_def)

lemma snd_zip_upt: "map snd (zip ls [n ..< n + length ls]) = [n ..< n + length ls]"
  by simp

lemma set_zip_upt: "c \<in> set (zip ls [n ..< n + length ls]) \<Longrightarrow> n \<le> snd c \<and> snd c < n + length ls"
  by (auto simp: set_zip)

lemma heap_ok_addProject: assumes "heap_ok w" shows "heap_ok (addProject rid obj w)"
proof -
  from assms have p: "projects w < next_arr w"
    and r: "\<forall>r \<in> set (store_refs w). r < next_obj w"
    and c: "\<forall>c \<in> set (calls w). snd c < next_arr w \<and> snd c \<noteq> projects w"
    and d: "distinct (map snd (calls w))"
    by (simp_all add: heap_ok_def)
  have 1: "projects (addProject rid obj w) < next_arr (addProject rid obj w)"
    using p by simp
  have 2: "\<forall>r \<in> set (store_refs (addProject rid obj w)). r < next_obj (addProject rid obj w)"
    using r by (auto simp: less_Suc_eq)
  have 3: "\<forall>c \<in> set (calls (addProject rid obj w)).
             snd c < next_arr (addProject rid obj w) \<and> snd c \<noteq> projects (addProject rid obj w)"
    using c p by (auto simp: addProject_calls dest!: set_zip_upt)
  have 4: "distinct (map snd (calls (addProject rid obj w)))"
    using c d by (auto simp: addProject_calls)
  show ?thesis using 1 2 3 4 by (simp add: heap_ok_def)
qed

lemma heap_ok_moveProject: assumes "heap_ok w" shows "heap_ok (moveProject i s w)"
proof (cases "moves i s w")
  case False
  then show ?thesis using assms by (simp add: moveProject_noop)
next
  case True
  from assms have p: "projects w < next_arr w"
    and r: "\<forall>r \<in> set (store_refs w). r < next_obj w"
    and c: "\<forall>c \<in> set (calls w). snd c < next_arr w \<and> snd c \<noteq> projects w"
    and d: "distinct (map snd (calls w))"
    by (simp_all add: heap_ok_def)
  have 1: "projects (moveProject i s w) < next_arr (moveProject i s w)"
    using p by (simp add: moveProject_next_arr)
  have 2: "\<forall>r \<in> set (store_refs (moveProject i s w)). r < next_obj (moveProject i s w)"
    using r by simp
  have 3: "\<forall>c \<in> set (calls (moveProject i s w)).
             snd c < next_arr (moveProject i s w) \<and> snd c \<noteq> projects (moveProject i s w)"
    using c p True by (auto simp: moveProject_calls moveProject_next_arr dest!: set_zip_upt)
  have 4: "distinct (map snd (calls (moveProject i s w)))"
    using c d True by (auto simp: moveProject_calls)
  show ?thesis using 1 2 3 4 by (simp add: heap_ok_def)
qed

lemma heap_ok_exec: "heap_ok w \<Longrightarrow> heap_ok (exec c w)"
  by (cases c) (simp_all add: heap_ok_addListener heap_ok_addProject heap_ok_moveProject)

lemma heap_ok_run: "heap_ok w \<Longrightarrow> heap_ok (run cs w)"
  by (induction cs arbitrary: w) (simp_all add: heap_ok_exec)


lemma map_fst_zip_upt [simp]: "map fst (zip ls [n ..< n + length ls]) = ls"
  by (simp add: map_fst_zip)

lemma ids_addProject:
  assumes "heap_ok w"
  shows "store_records (addProject rid obj w) = store_records w @ [new_record rid obj]"
proof -
  from assms have "\<forall>r \<in> set (store_refs w). r \<noteq> next_obj w"
    by (auto simp: heap_ok_def)
  then have "map ((objs w)(next_obj w := new_record rid obj)) (store_refs w) = map (objs w) (store_refs w)"
    by (intro map_cong) auto
  then show ?thesis by (simp add: store_records_def)
qed

lemma moveProject_id [simp]: "id_f (objs (moveProject i s w) r) = id_f (objs w r)"
  "Project.title (objs (moveProject i s w) r) = Project.title (objs w r)"
  "Project.description (objs (moveProject i s w) r) = Project.description (objs w r)"
  "Project.people (objs (moveProject i s w) r) = Project.people (objs w r)"
  by (simp_all add: moveProject_objs)

lemma ids_moveProject [simp]:
  "map id_f (store_records (moveProject i s w)) = map id_f (store_records w)"
  by (simp add: store_records_def)

lemma ids_run:
  "heap_ok w \<Longrightarrow> map id_f (store_records (run cs w)) = map id_f (store_records w) @ draws cs"
proof (induction cs arbitrary: w)
  case Nil
  then show ?case by simp
next
  case (Cons c cs)
  have "map id_f (store_records (exec c w)) @ draws cs = map id_f (store_records w) @ draws (c # cs)"
  proof (cases c)
    case (AddListener fn)
    then show ?thesis by (simp add: addListener_def store_records_def store_refs_def)
  next
    case (AddProject rid obj)
    then show ?thesis using Cons.prems by (simp add: ids_addProject new_record_def)
  next
    case (MoveProject i s)
    then show ?thesis by simp
  qed
  then show ?case using Cons.IH [of "exec c w"] Cons.prems by (simp add: heap_ok_exec)
qed

lemma moveProject_new_calls:
  "new_calls w (moveProject i s w) =
     (if moves i s w
      then zip (listeners w) [next_arr w ..< next_arr w + length (listeners w)] else [])"
  by (simp add: new_calls_def moveProject_calls)

lemma moves_find:
  "moves i s w \<Longrightarrow> \<exists>r. find (\<lambda>prj. id_f (objs w prj) = i) (store_refs w) = Some r \<and> status (objs w r) \<noteq> s"
  by (auto simp: moves_iff store_refs_def split: option.splits)

lemma moveProject_changes: assumes "moves i s w" shows "moveProject i s w \<noteq> w"
proof
  assume eq: "moveProject i s w = w"
  from assms obtain r where r: "find (\<lambda>prj. id_f (objs w prj) = i) (store_refs w) = Some r"
    and st: "status (objs w r) \<noteq> s"
    using moves_find by blast
  have "status (objs (moveProject i s w) r) = s"
    using assms r by (simp add: moveProject_objs)
  with eq st show False by simp
qed

lemma moves_once: assumes "moves i s w" shows "\<not> moves i s (moveProject i s w)"
proof -
  from assms obtain r where r: "find (\<lambda>prj. id_f (objs w prj) = i) (store_refs w) = Some r"
    using moves_find by blast
  have "find (\<lambda>prj. id_f (objs (moveProject i s w) prj) = i) (arrs (moveProject i s w) (projects (moveProject i s w)))
        = Some r"
    using r by (simp add: store_refs_def [symmetric] del: moveProject_frame(3)) 
  moreover have "status (objs (moveProject i s w) r) = s"
    using assms r by (simp add: moveProject_objs)
  ultimately show ?thesis by (simp add: moves_iff)
qed

lemma first_match_unique:
  "distinct (map id_f rs) \<Longrightarrow>
   (\<exists>p \<in> set rs. id_f p = i \<and> status p \<noteq> s) =
   (case find (\<lambda>p. id_f p = i) rs of Some p \<Rightarrow> status p \<noteq> s | None \<Rightarrow> False)"
  by (induction rs) (auto simp: image_iff)

lemma moves_unique_ids:
  "distinct (map id_f (store_records w)) \<Longrightarrow> moves i s w = spec_moves i s w"
  by (simp add: moves_def spec_moves_def first_match_unique)

lemma array_assign_frame [simp]:
  "objs (array_assign a xs w) = objs w"
  "projects (array_assign a xs w) = projects w"
  "calls (array_assign a xs w) = calls w"
  "arrs (array_assign a xs w) b = (if b = a then xs else arrs w b)"
  by (simp_all add: array_assign_def)

lemma exec_new_calls_refs:
  "d \<in> set (new_calls w (exec c w)) \<Longrightarrow> arrs (exec c w) (snd d) = store_refs (exec c w)"
proof (cases c)
  case (AddListener fn)
  assume "d \<in> set (new_calls w (exec c w))"
  then show ?thesis using AddListener by (simp add: addListener_def new_calls_def)
next
  case (AddProject rid obj)
  assume "d \<in> set (new_calls w (exec c w))"
  then show ?thesis using AddProject
    by (auto dest!: set_zip_upt simp: addProject_arrs_new)
next
  case (MoveProject i s)
  assume "d \<in> set (new_calls w (exec c w))"
  then show ?thesis using MoveProject
    by (cases "moves i s w")
       (auto dest!: set_zip_upt simp: new_calls_def moveProject_calls moveProject_arrs moveProject_noop)
qed

lemma listeners_exec: "fn \<in> set (listeners w) \<Longrightarrow> fn \<in> set (listeners (exec c w))"
  by (cases c) (simp_all add: addListener_def)

lemma listeners_run: "fn \<in> set (listeners w) \<Longrightarrow> fn \<in> set (listeners (run cs w))"
  by (induction cs arbitrary: w) (simp_all add: listeners_exec)

lemma addProject_changes: "addProject rid obj w \<noteq> w"
proof
  assume "addProject rid obj w = w"
  then have "next_obj (addProject rid obj w) = next_obj w" by simp
  then show False by simp
qed

subsection \<open>Validation\<close>

lemma trim_whitespace:
  assumes "\<forall>c \<in> set s. isWhiteSpace c"
  shows "trim s = []"
proof -
  from assms have h: "dropWhile isWhiteSpace s = []" by (induction s) simp_all
  show ?thesis unfolding trim_def h by simp
qed

lemma validate_required:
  "validate b input \<Longrightarrow> required input = Some True \<Longrightarrow> trim (toString b (value_f input)) \<noteq> []"
  by (simp add: validate_def Let_def split: option.splits jsvalue.splits prod.splits)

lemma validate_required_string:
  "validate b \<lparr>value_f = Str s, required = Some True, minLength = None, maxLength = None,
               min_f = None, max_f = None\<rparr> \<longleftrightarrow> trim s \<noteq> []"
  by (simp add: validate_def toString_def)

lemma validate_description:
  "validate b \<lparr>value_f = Str s, required = Some True, minLength = Some (Fin 5), maxLength = None,
               min_f = None, max_f = None\<rparr> \<longleftrightarrow> 5 \<le> length (trim s)"
  by (auto simp: validate_def toString_def num_ge_def)

lemma validate_people:
  "validate b \<lparr>value_f = Num n, required = Some True, minLength = None, maxLength = None,
               min_f = Some (Fin 1), max_f = Some (Fin 5)\<rparr> \<longleftrightarrow>
   trim (NumberToString b n) \<noteq> [] \<and> num_le (Fin 1) n \<and> num_le n (Fin 5)"
  by (auto simp: validate_def toString_def num_ge_def)

lemma gatherUserInput_eq:
  "gatherUserInput b pg =
     (if accepts b (project pg)
      then (Some (titleInputEl (project pg), descriptionInputEl (project pg),
                  ToNumber b (peopleInputEl (project pg))), pg)
      else (None, pg\<lparr>console := console pg @ [''Input is wrong!'']\<rparr>))"
  unfolding gatherUserInput_def Let_def validate_required_string validate_description
    validate_people accepts_def
  by auto

lemma submitHandler_eq:
  "submitHandler b rid pg =
     (if accepts b (project pg)
      then pg\<lparr>projectState :=
                addProject rid \<lparr>title = titleInputEl (project pg),
                                description = descriptionInputEl (project pg),
                                people = ToNumber b (peopleInputEl (project pg))\<rparr>
                  (projectState pg),
              project := clearInputs (project pg)\<rparr>
      else pg\<lparr>console := console pg @ [''Input is wrong!'']\<rparr>)"
  by (simp add: submitHandler_def gatherUserInput_eq)

subsection \<open>The example states, evaluated\<close>

lemma ex_calls: "calls (run one_project init) = [(''active'', 1), (''finished'', 2)]"
  by code_simp

lemma ex_listeners: "listeners (run one_project init) = [''active'', ''finished'']"
  by code_simp

lemma ex_new_calls_move:
  "new_calls (run one_project init) (moveProject (ascii ''0.5'') Finished (run one_project init))
     = [(''active'', 3), (''finished'', 4)]"
  by code_simp

lemma ex_moves_finished: "moves (ascii ''0.5'') Finished (run one_project init)"
  by code_simp

lemma ex_not_moves_active: "\<not> moves (ascii ''0.5'') Active (run one_project init)"
  by code_simp

lemma ex_not_moves_missing: "\<not> moves (ascii ''0.25'') Finished (run one_project init)"
  by code_simp

lemma ex_dup_not_moves: "\<not> moves (ascii ''0.5'') Finished (run same_id_twice init)"
  by code_simp

lemma ex_dup_records:
  "map id_f (store_records (run same_id_twice init)) = [ascii ''0.5'', ascii ''0.5''] \<and>
   map status (store_records (run same_id_twice init)) = [Finished, Active]"
  by code_simp

lemma ex_dup_spec_moves: "spec_moves (ascii ''0.5'') Finished (run same_id_twice init)"
  by code_simp

lemma ex_two_views_new_calls:
  "new_calls (run two_views init) (addProject (ascii ''0.5'') shed (run two_views init))
     = [(''active'', 1), (''finished'', 2)]"
  by code_simp

lemma ex_accepts_filled: "accepts example_builtins (project filled_page)"
  by code_simp

lemma ex_rejects_blank_title: "\<not> accepts example_builtins (project blank_title_page)"
  by code_simp

section \<open>The claims\<close>

text \<open>
  C1 (as amended). After any sequence of calls on a new store, the store holds as
  many records as there were \<open>addProject\<close> calls, and the ids of its records are,
  in order, the strings drawn in those calls. The ids are therefore pairwise
  distinct exactly when the draws are: the store itself does nothing to make them
  so.
\<close>

theorem store_length_and_ids:
  "length (store_records (run cs init)) = length (draws cs) \<and>
   map id_f (store_records (run cs init)) = draws cs \<and>
   (distinct (map id_f (store_records (run cs init))) \<longleftrightarrow> distinct (draws cs))"
proof -
  have "map id_f (store_records (run cs init)) = draws cs"
    using ids_run [OF heap_ok_init, of cs] by (simp add: init_def store_records_def store_refs_def)
  moreover from this have "length (store_records (run cs init)) = length (draws cs)"
    by (metis length_map)
  ultimately show ?thesis by simp
qed

text \<open>
  C1 as stated fails: two \<open>addProject\<close> calls in which the random source yields
  the same string leave two records with the same id.
\<close>

theorem ids_can_collide:
  "map id_f (store_records
     (run [AddProject (ascii ''0.5'') \<lparr>title = ascii ''Shed'', description = ascii ''Wooden shed'', people = Fin 3\<rparr>,
           AddProject (ascii ''0.5'') \<lparr>title = ascii ''Barn'', description = ascii ''Stone barn'', people = Fin 2\<rparr>]
        (init :: string world)))
   = [ascii ''0.5'', ascii ''0.5'']"
  by code_simp

text \<open>
  C2 (as amended). The array passed to a listener is a new array: no two invocations
  are ever passed the same array, and none is passed the store's own array. So any
  change to a received array itself (adding, removing, replacing or reordering its
  elements) leaves the store's sequence and records, and the array of every other
  invocation, as they were. The elements of the array, however, are the store's own
  record objects: at a notification each array holds exactly the references the
  store's array holds.
\<close>

theorem snapshot_arrays_independent:
  "distinct (map snd (calls (run cs init))) \<and>
   (\<forall>c \<in> set (calls (run cs init)).
      snd c \<noteq> projects (run cs init) \<and>
      (\<forall>xs. store_refs (array_assign (snd c) xs (run cs init)) = store_refs (run cs init) \<and>
            store_records (array_assign (snd c) xs (run cs init)) = store_records (run cs init) \<and>
            (\<forall>d \<in> set (calls (run cs init)). snd d \<noteq> snd c \<longrightarrow>
               array_records (array_assign (snd c) xs (run cs init)) (snd d) =
               array_records (run cs init) (snd d)))) \<and>
   (\<forall>d \<in> set (new_calls (run cs init) (exec c' (run cs init))).
      arrs (exec c' (run cs init)) (snd d) = store_refs (exec c' (run cs init)))"
proof -
  have ok: "heap_ok (run cs init)"
    by (simp add: heap_ok_run heap_ok_init)
  then have 1: "distinct (map snd (calls (run cs init)))"
    and 2: "\<forall>c \<in> set (calls (run cs init)). snd c \<noteq> projects (run cs init)"
    by (simp_all add: heap_ok_def)
  have 3: "\<forall>c \<in> set (calls (run cs init)). \<forall>xs.
             store_refs (array_assign (snd c) xs (run cs init)) = store_refs (run cs init) \<and>
             store_records (array_assign (snd c) xs (run cs init)) = store_records (run cs init)"
    using 2 by (auto simp: store_records_def store_refs_def)
  have 4: "\<forall>c xs d. snd d \<noteq> snd c \<longrightarrow>
             array_records (array_assign (snd c) xs (run cs init)) (snd d) =
             array_records (run cs init) (snd d)"
    by (simp add: array_records_def)
  have 5: "\<forall>d \<in> set (new_calls (run cs init) (exec c' (run cs init))).
      arrs (exec c' (run cs init)) (snd d) = store_refs (exec c' (run cs init))"
    by (simp add: exec_new_calls_refs)
  show ?thesis using 1 2 3 4 5 by blast
qed

text \<open>
  At the example: the two views were passed the arrays 1 and 2; emptying array 1
  changes neither the store nor array 2; the arrays of the next notification hold
  the store's references.
\<close>

theorem snapshot_arrays_independent_witness:
  "calls (run one_project init) = [(''active'', 1), (''finished'', 2)] \<and>
   store_records (array_assign 1 [] (run one_project init)) = store_records (run one_project init) \<and>
   array_records (array_assign 1 [] (run one_project init)) 2 = array_records (run one_project init) 2 \<and>
   arrs (moveProject (ascii ''0.5'') Finished (run one_project init)) 3
     = store_refs (moveProject (ascii ''0.5'') Finished (run one_project init))"
  using snapshot_arrays_independent [of one_project "MoveProject (ascii ''0.5'') Finished"]
  by (simp add: ex_calls ex_new_calls_move)

text \<open>
  C2 as stated fails for a change to a record: after the first view sets the status
  of element 0 of its array to \<open>Finished\<close>, the store's record and the record in
  the array of the second view are \<open>Finished\<close> too.
\<close>

theorem record_mutation_reaches_store:
  "calls (run one_project init) = [(''active'', 1), (''finished'', 2)] \<and>
   map status (store_records (run one_project init)) = [Active] \<and>
   map status (array_records (run one_project init) 2) = [Active] \<and>
   map_option (map status \<circ> store_records) (set_status_at 1 0 Finished (run one_project init))
     = Some [Finished] \<and>
   map_option (map status \<circ> (\<lambda>w. array_records w 2)) (set_status_at 1 0 Finished (run one_project init))
     = Some [Finished]"
  by code_simp

text \<open>
  C3 (as amended). \<open>moveProject(id, newStatus)\<close> acts if and only if the first
  record with that id, in the order of the store, exists and its status differs from
  the new one. When it acts, the status of that one object is set, the store's
  sequence of references is unchanged, and every registered listener is invoked, in
  the order of registration. When it does not act, the state is unchanged and no
  listener is invoked. Where the ids of the store are pairwise distinct, the
  condition is the one of the claim.
\<close>

theorem moveProject_acts_on_first_match:
  "(moves i s w \<longrightarrow>
      (\<exists>r. find (\<lambda>prj. id_f (objs w prj) = i) (store_refs w) = Some r \<and>
           objs (moveProject i s w) = (objs w)(r := (objs w r)\<lparr>status := s\<rparr>)) \<and>
      store_refs (moveProject i s w) = store_refs w \<and>
      map fst (new_calls w (moveProject i s w)) = listeners w \<and>
      moveProject i s w \<noteq> w) \<and>
   (\<not> moves i s w \<longrightarrow> moveProject i s w = w \<and> new_calls w (moveProject i s w) = []) \<and>
   (distinct (map id_f (store_records w)) \<longrightarrow> moves i s w = spec_moves i s w)"
proof (cases "moves i s w")
  case True
  then obtain r where r: "find (\<lambda>prj. id_f (objs w prj) = i) (store_refs w) = Some r"
    using moves_find by blast
  have "objs (moveProject i s w) = (objs w)(r := (objs w r)\<lparr>status := s\<rparr>)"
    using True r by (auto simp: moveProject_objs fun_eq_iff)
  moreover have "map fst (new_calls w (moveProject i s w)) = listeners w"
    using True by (simp add: moveProject_new_calls)
  ultimately show ?thesis
    using True r moveProject_changes [OF True] moves_unique_ids [of w i s] by simp
next
  case False
  then show ?thesis using moves_unique_ids [of w i s]
    by (simp add: moveProject_noop new_calls_def)
qed

text \<open>
  At the example: moving the one project to \<open>Finished\<close> invokes both views and
  changes the state; moving it to \<open>Active\<close>, or moving an id the store does not
  hold, changes nothing.
\<close>

theorem moveProject_acts_on_first_match_witness:
  "map fst (new_calls (run one_project init)
             (moveProject (ascii ''0.5'') Finished (run one_project init)))
     = [''active'', ''finished''] \<and>
   moveProject (ascii ''0.5'') Finished (run one_project init) \<noteq> run one_project init \<and>
   moveProject (ascii ''0.5'') Active (run one_project init) = run one_project init \<and>
   moveProject (ascii ''0.25'') Finished (run one_project init) = run one_project init"
  using moveProject_acts_on_first_match [of "ascii ''0.5''" Finished "run one_project init"]
    moveProject_acts_on_first_match [of "ascii ''0.5''" Active "run one_project init"]
    moveProject_acts_on_first_match [of "ascii ''0.25''" Finished "run one_project init"]
    ex_moves_finished ex_not_moves_active ex_not_moves_missing
  by (simp add: ex_listeners)

text \<open>
  C3 as stated fails where two records have one id: the first is \<open>Finished\<close>,
  the second is \<open>Active\<close>, so a record with that id and a status other than
  \<open>Finished\<close> exists, and still \<open>moveProject(id, Finished)\<close> changes nothing.
\<close>

theorem moveProject_ignores_second_match:
  "map id_f (store_records (run same_id_twice init)) = [ascii ''0.5'', ascii ''0.5''] \<and>
   map status (store_records (run same_id_twice init)) = [Finished, Active] \<and>
   spec_moves (ascii ''0.5'') Finished (run same_id_twice init) \<and>
   moveProject (ascii ''0.5'') Finished (run same_id_twice init) = run same_id_twice init"
  using ex_dup_records ex_dup_spec_moves moveProject_noop [OF ex_dup_not_moves] by simp

text \<open>
  C4. After \<open>addProject\<close> with title \<open>t\<close>, description \<open>d\<close> and people count
  \<open>p\<close>, in any state a sequence of calls on a new store leads to, every registered
  listener has been invoked, in the order of registration, and the array each was
  passed holds the records the store held before, in their order, followed by the
  new record with these fields, the drawn id and the status \<open>Active\<close>.
\<close>

theorem addProject_snapshot:
  "map fst (new_calls (run cs init)
              (addProject rid \<lparr>title = t, description = d, people = p\<rparr> (run cs init)))
     = listeners (run cs init) \<and>
   (\<forall>c \<in> set (new_calls (run cs init)
                 (addProject rid \<lparr>title = t, description = d, people = p\<rparr> (run cs init))).
      array_records (addProject rid \<lparr>title = t, description = d, people = p\<rparr> (run cs init)) (snd c)
        = store_records (run cs init) @
          [\<lparr>id_f = rid, title = t, description = d, people = p, status = Active\<rparr>])"
proof -
  let ?w = "run cs init" and ?obj = "\<lparr>title = t, description = d, people = p\<rparr>"
  have ok: "heap_ok ?w" by (simp add: heap_ok_run heap_ok_init)
  have rec: "store_records (addProject rid ?obj ?w) = store_records ?w @
          [\<lparr>id_f = rid, title = t, description = d, people = p, status = Active\<rparr>]"
    using ids_addProject [OF ok, of rid ?obj] by (simp add: new_record_def)
  have "array_records (addProject rid ?obj ?w) (snd c) = store_records (addProject rid ?obj ?w)"
    if "c \<in> set (new_calls ?w (addProject rid ?obj ?w))" for c
    using exec_new_calls_refs [of c ?w "AddProject rid ?obj"] that
    by (simp add: array_records_def store_records_def)
  with rec show ?thesis by simp
qed

theorem addProject_snapshot_witness:
  "new_calls (run two_views init)
     (addProject (ascii ''0.5'')
        \<lparr>title = ascii ''Build shed'', description = ascii ''Wooden shed construction'', people = Fin 3\<rparr>
        (run two_views init))
     = [(''active'', 1), (''finished'', 2)] \<and>
   array_records
     (addProject (ascii ''0.5'')
        \<lparr>title = ascii ''Build shed'', description = ascii ''Wooden shed construction'', people = Fin 3\<rparr>
        (run two_views init)) 2
     = store_records (run two_views init) @
       [\<lparr>id_f = ascii ''0.5'', title = ascii ''Build shed'',
         description = ascii ''Wooden shed construction'', people = Fin 3, status = Active\<rparr>]"
  using addProject_snapshot [of two_views "ascii ''0.5''" "ascii ''Build shed''"
      "ascii ''Wooden shed construction''" "Fin 3"] ex_two_views_new_calls
  by (simp add: shed_def)

text \<open>
  C5 (as amended). On \<open>addProject\<close>, and on a \<open>moveProject\<close> that acts, every
  registered listener is invoked once, in the order of registration, before the
  operation returns; each invocation is passed an array of its own, allocated in that
  invocation, and each of these arrays holds the references of the store's sequence.
\<close>

theorem one_copy_per_listener:
  "(map fst (new_calls w (addProject rid obj w)) = listeners w \<and>
    distinct (map snd (new_calls w (addProject rid obj w))) \<and>
    (\<forall>c \<in> set (new_calls w (addProject rid obj w)).
       next_arr w \<le> snd c \<and>
       arrs (addProject rid obj w) (snd c) = store_refs (addProject rid obj w))) \<and>
   (moves i s w \<longrightarrow>
    map fst (new_calls w (moveProject i s w)) = listeners w \<and>
    distinct (map snd (new_calls w (moveProject i s w))) \<and>
    (\<forall>c \<in> set (new_calls w (moveProject i s w)).
       next_arr w \<le> snd c \<and>
       arrs (moveProject i s w) (snd c) = store_refs (moveProject i s w)))"
proof -
  have a: "\<forall>c \<in> set (new_calls w (addProject rid obj w)).
       next_arr w \<le> snd c \<and> arrs (addProject rid obj w) (snd c) = store_refs (addProject rid obj w)"
    using exec_new_calls_refs [of _ w "AddProject rid obj"]
    by (auto dest: set_zip_upt)
  have a1: "map fst (new_calls w (addProject rid obj w)) = listeners w"
    and a2: "distinct (map snd (new_calls w (addProject rid obj w)))"
    by simp_all
  have m: "\<forall>c \<in> set (new_calls w (moveProject i s w)).
       next_arr w \<le> snd c \<and> arrs (moveProject i s w) (snd c) = store_refs (moveProject i s w)"
    if "moves i s w"
    using exec_new_calls_refs [of _ w "MoveProject i s"] that
    by (auto simp: moveProject_new_calls dest: set_zip_upt)
  have m1: "map fst (new_calls w (moveProject i s w)) = listeners w"
    and m2: "distinct (map snd (new_calls w (moveProject i s w)))" if "moves i s w"
    using that by (simp_all add: moveProject_new_calls)
  show ?thesis using a a1 a2 m m1 m2 by blast
qed

theorem one_copy_per_listener_witness:
  "map snd (new_calls (run one_project init) (addProject (ascii ''0.75'') barn (run one_project init)))
     = [3, 4] \<and>
   arrs (addProject (ascii ''0.75'') barn (run one_project init)) 3
     = store_refs (addProject (ascii ''0.75'') barn (run one_project init)) \<and>
   map fst (new_calls (run one_project init)
              (moveProject (ascii ''0.5'') Finished (run one_project init)))
     = [''active'', ''finished''] \<and>
   arrs (moveProject (ascii ''0.5'') Finished (run one_project init)) 4
     = store_refs (moveProject (ascii ''0.5'') Finished (run one_project init))"
proof -
  have n: "new_calls (run one_project init) (addProject (ascii ''0.75'') barn (run one_project init))
     = [(''active'', 3), (''finished'', 4)]"
    by code_simp
  show ?thesis
    using one_copy_per_listener [of "run one_project init" "ascii ''0.75''" barn "ascii ''0.5''" Finished]
      ex_moves_finished
    unfolding n ex_new_calls_move ex_listeners
    by simp
qed

text \<open>
  C5 as stated fails: with two listeners registered, one \<open>addProject\<close> passes the
  array 1 to the first and the array 2 to the second, not one array to both.
\<close>

theorem each_listener_gets_another_array:
  "listeners (run two_views init) = [''active'', ''finished''] \<and>
   new_calls (run two_views init) (addProject (ascii ''0.5'') shed (run two_views init))
     = [(''active'', 1), (''finished'', 2)]"
  by code_simp

text \<open>
  C6 (as amended). The submit handler calls \<open>addProject\<close> if and only if the
  form is accepted in the sense of \<open>accepts\<close>: the trimmed title is not empty, the
  trimmed description has at least five code units, and the number \<open>n\<close> the people
  field converts to satisfies \<open>1 <= n\<close> and \<open>n <= 5\<close> (with a string form that is
  not blank); nothing requires \<open>n\<close> to be an integer. On acceptance the project is
  added with the untrimmed title and description and with \<open>n\<close>, and the inputs are
  cleared; otherwise the store and the inputs are unchanged and one line is logged.
\<close>

theorem submitHandler_adds_iff_accepts:
  "submitHandler b rid pg =
     (if accepts b (project pg)
      then pg\<lparr>projectState :=
                addProject rid \<lparr>title = titleInputEl (project pg),
                                description = descriptionInputEl (project pg),
                                people = ToNumber b (peopleInputEl (project pg))\<rparr>
                  (projectState pg),
              project := clearInputs (project pg)\<rparr>
      else pg\<lparr>console := console pg @ [''Input is wrong!'']\<rparr>) \<and>
   (projectState (submitHandler b rid pg) = projectState pg) = (\<not> accepts b (project pg))"
proof (cases "accepts b (project pg)")
  case True
  let ?obj = "\<lparr>title = titleInputEl (project pg),
               description = descriptionInputEl (project pg),
               people = ToNumber b (peopleInputEl (project pg))\<rparr>"
  have "gatherUserInput b pg =
          (Some (titleInputEl (project pg), descriptionInputEl (project pg),
                 ToNumber b (peopleInputEl (project pg))), pg)"
    using True by (simp add: gatherUserInput_eq)
  then have eq: "submitHandler b rid pg =
          pg\<lparr>projectState := addProject rid ?obj (projectState pg),
             project := clearInputs (project pg)\<rparr>"
    by (simp add: submitHandler_def)
  have "addProject rid ?obj (projectState pg) \<noteq> projectState pg"
    by (rule addProject_changes)
  with eq True show ?thesis by simp
next
  case False
  then have "gatherUserInput b pg = (None, pg\<lparr>console := console pg @ [''Input is wrong!'']\<rparr>)"
    by (simp add: gatherUserInput_eq)
  then have "submitHandler b rid pg = pg\<lparr>console := console pg @ [''Input is wrong!'']\<rparr>"
    by (simp add: submitHandler_def)
  with False show ?thesis by simp
qed

theorem submitHandler_adds_iff_accepts_witness:
  "store_records (projectState (submitHandler example_builtins (ascii ''0.5'') filled_page))
     = [\<lparr>id_f = ascii ''0.5'', title = ascii ''Build shed'',
         description = ascii ''Wooden shed construction'', people = Fin 3, status = Active\<rparr>] \<and>
   project (submitHandler example_builtins (ascii ''0.5'') filled_page)
     = \<lparr>titleInputEl = [], descriptionInputEl = [], peopleInputEl = []\<rparr> \<and>
   submitHandler example_builtins (ascii ''0.5'') blank_title_page
     = blank_title_page\<lparr>console := [''Input is wrong!'']\<rparr>"
proof -
  have r: "store_records (addProject (ascii ''0.5'')
              \<lparr>title = ascii ''Build shed'', description = ascii ''Wooden shed construction'',
               people = Fin 3\<rparr> (run two_views init))
     = [\<lparr>id_f = ascii ''0.5'', title = ascii ''Build shed'',
         description = ascii ''Wooden shed construction'', people = Fin 3, status = Active\<rparr>]"
    by code_simp
  have n: "ToNumber example_builtins (ascii ''3'') = Fin 3"
    by code_simp
  have f: "project filled_page = \<lparr>titleInputEl = ascii ''Build shed'',
                  descriptionInputEl = ascii ''Wooden shed construction'',
                  peopleInputEl = ascii ''3''\<rparr>" "projectState filled_page = run two_views init"
    "console blank_title_page = []"
    by (simp_all add: filled_page_def blank_title_page_def)
  show ?thesis
    using submitHandler_adds_iff_accepts [of example_builtins "ascii ''0.5''" filled_page]
      submitHandler_adds_iff_accepts [of example_builtins "ascii ''0.5''" blank_title_page]
      ex_accepts_filled ex_rejects_blank_title
    by (simp add: f n r clearInputs_def)
qed

text \<open>
  C6 as stated fails in both directions: a title of one space is not empty, yet the
  handler does not call \<open>addProject\<close>; a people count of 2.5 is not an integer,
  yet the handler adds the project, with 2.5 people.
\<close>

theorem validation_is_not_as_stated:
  "spec_accepts example_builtins (project blank_title_page) \<and>
   projectState (submitHandler example_builtins (ascii ''0.5'') blank_title_page)
     = projectState blank_title_page \<and>
   \<not> spec_accepts example_builtins (project fractional_people_page) \<and>
   store_records (projectState (submitHandler example_builtins (ascii ''0.5'') fractional_people_page))
     = [\<lparr>id_f = ascii ''0.5'', title = ascii ''Build shed'',
         description = ascii ''Wooden shed construction'', people = Fin (5 / 2), status = Active\<rparr>]"
proof -
  have 1: "spec_accepts example_builtins (project blank_title_page)"
    and 3: "\<not> spec_accepts example_builtins (project fractional_people_page)"
    by code_simp+
  have 2: "projectState (submitHandler example_builtins (ascii ''0.5'') blank_title_page)
     = projectState blank_title_page"
    using ex_rejects_blank_title by (simp add: submitHandler_eq)
  have 4: "store_records (projectState (submitHandler example_builtins (ascii ''0.5'') fractional_people_page))
     = [\<lparr>id_f = ascii ''0.5'', title = ascii ''Build shed'',
         description = ascii ''Wooden shed construction'', people = Fin (5 / 2), status = Active\<rparr>]"
    by code_simp
  show ?thesis using 1 2 3 4 by simp
qed

text \<open>
  C7 (as amended). If the first record with the id exists and is not \<open>Finished\<close>,
  two calls \<open>moveProject(id, Finished)\<close> in succession invoke every registered
  listener once in the first call; the second call invokes none and leaves the state
  as the first call left it.
\<close>

theorem moveProject_twice:
  assumes "moves i Finished w"
  shows "map fst (new_calls w (moveProject i Finished w)) = listeners w \<and>
     new_calls (moveProject i Finished w) (moveProject i Finished (moveProject i Finished w)) = [] \<and>
     moveProject i Finished (moveProject i Finished w) = moveProject i Finished w"
proof -
  have first: "map fst (new_calls w (moveProject i Finished w)) = listeners w"
    using assms by (simp add: moveProject_new_calls)
  have "\<not> moves i Finished (moveProject i Finished w)"
    using assms by (rule moves_once)
  then have second: "moveProject i Finished (moveProject i Finished w) = moveProject i Finished w"
    by (rule moveProject_noop)
  then have "new_calls (moveProject i Finished w) (moveProject i Finished (moveProject i Finished w)) = []"
    by (simp add: new_calls_def)
  with first second show ?thesis by simp
qed

theorem moveProject_twice_witness:
  "moves (ascii ''0.5'') Finished (run one_project init) \<and>
   map fst (new_calls (run one_project init)
              (moveProject (ascii ''0.5'') Finished (run one_project init)))
      = [''active'', ''finished''] \<and>
   moveProject (ascii ''0.5'') Finished (moveProject (ascii ''0.5'') Finished (run one_project init))
      = moveProject (ascii ''0.5'') Finished (run one_project init)"
  using moveProject_twice [OF ex_moves_finished] ex_moves_finished
  by (simp add: ex_listeners)

text \<open>
  C7 as stated fails for a record that is \<open>Finished\<close> already: the store holds a
  record with the id and two listeners, and neither of the two calls invokes a
  listener.
\<close>

theorem moveProject_twice_on_finished:
  "map id_f (store_records (run already_finished init)) = [ascii ''0.5''] \<and>
   listeners (run already_finished init) = [''active'', ''finished''] \<and>
   new_calls (run already_finished init)
     (moveProject (ascii ''0.5'') Finished
        (moveProject (ascii ''0.5'') Finished (run already_finished init))) = []"
  by code_simp

text \<open>
  C8. \<open>moveProject\<close> leaves the store's sequence of references, hence its length
  and order, unchanged, and it leaves the id, title, description and people count of
  every record unchanged; a record whose status has changed has the given id.
\<close>

theorem moveProject_keeps_fields:
  "store_refs (moveProject i s w) = store_refs w \<and>
   length (store_records (moveProject i s w)) = length (store_records w) \<and>
   (\<forall>k < length (store_records w).
      id_f (store_records (moveProject i s w) ! k) = id_f (store_records w ! k) \<and>
      Project.title (store_records (moveProject i s w) ! k) = Project.title (store_records w ! k) \<and>
      Project.description (store_records (moveProject i s w) ! k) = Project.description (store_records w ! k) \<and>
      Project.people (store_records (moveProject i s w) ! k) = Project.people (store_records w ! k) \<and>
      (status (store_records (moveProject i s w) ! k) \<noteq> status (store_records w ! k) \<longrightarrow>
         id_f (store_records w ! k) = i))"
proof -
  have "id_f (objs w r) = i" if "status (objs (moveProject i s w) r) \<noteq> status (objs w r)" for r
  proof -
    from that have "moves i s w" and "find (\<lambda>prj. id_f (objs w prj) = i) (store_refs w) = Some r"
      by (auto simp: moveProject_objs split: if_splits)
    then show ?thesis by (auto dest: find_Some_iff [THEN iffD1])
  qed
  then show ?thesis by (simp add: store_records_def)
qed

theorem moveProject_keeps_fields_witness:
  "store_records (run one_project init)
     = [\<lparr>id_f = ascii ''0.5'', title = ascii ''Build shed'',
         description = ascii ''Wooden shed construction'', people = Fin 3, status = Active\<rparr>] \<and>
   id_f (store_records (moveProject (ascii ''0.5'') Finished (run one_project init)) ! 0) = ascii ''0.5'' \<and>
   Project.title (store_records (moveProject (ascii ''0.5'') Finished (run one_project init)) ! 0)
     = ascii ''Build shed'' \<and>
   Project.description (store_records (moveProject (ascii ''0.5'') Finished (run one_project init)) ! 0)
     = ascii ''Wooden shed construction'' \<and>
   Project.people (store_records (moveProject (ascii ''0.5'') Finished (run one_project init)) ! 0) = Fin 3 \<and>
   length (store_records (moveProject (ascii ''0.5'') Finished (run one_project init))) = 1"
proof -
  have r: "store_records (run one_project init)
     = [\<lparr>id_f = ascii ''0.5'', title = ascii ''Build shed'',
         description = ascii ''Wooden shed construction'', people = Fin 3, status = Active\<rparr>]"
    by code_simp
  show ?thesis
    using moveProject_keeps_fields [of "ascii ''0.5''" Finished "run one_project init"]
    by (simp add: r)
qed

text \<open>
  C9. \<open>addListener\<close> appends the callback to the listeners and changes nothing
  else: the log of invocations and the records of the store are as before. After any
  further sequence of calls the callback is still registered, and it is invoked by
  every later \<open>addProject\<close> and by every later \<open>moveProject\<close> that acts.
\<close>

theorem addListener_registers_only:
  "addListener fn w = w\<lparr>listeners := listeners w @ [fn]\<rparr> \<and>
   calls (addListener fn w) = calls w \<and>
   store_records (addListener fn w) = store_records w \<and>
   fn \<in> set (listeners (run cs (addListener fn w))) \<and>
   fn \<in> fst ` set (new_calls (run cs (addListener fn w))
                     (addProject rid obj (run cs (addListener fn w)))) \<and>
   (moves i s (run cs (addListener fn w)) \<longrightarrow>
      fn \<in> fst ` set (new_calls (run cs (addListener fn w))
                        (moveProject i s (run cs (addListener fn w)))))"
proof -
  let ?v = "run cs (addListener fn w)"
  have reg: "fn \<in> set (listeners ?v)"
    by (rule listeners_run) (simp add: addListener_def)
  have "fst ` set (new_calls ?v (addProject rid obj ?v)) = set (listeners ?v)"
    by (metis addProject_new_calls map_fst_zip_upt set_map)
  moreover have "fst ` set (new_calls ?v (moveProject i s ?v)) = set (listeners ?v)"
    if "moves i s ?v"
    using that by (simp add: new_calls_def moveProject_calls del: set_zip) (metis map_fst_zip_upt set_map)
  ultimately show ?thesis using reg
    by (simp add: addListener_def store_records_def store_refs_def)
qed

theorem addListener_registers_only_witness:
  "calls (addListener ''archive'' (run one_project init)) = [(''active'', 1), (''finished'', 2)] \<and>
   store_records (addListener ''archive'' (run one_project init)) = store_records (run one_project init) \<and>
   ''archive'' \<in> fst ` set (new_calls
       (run [AddProject (ascii ''0.75'') barn] (addListener ''archive'' (run one_project init)))
       (moveProject (ascii ''0.5'') Finished
          (run [AddProject (ascii ''0.75'') barn] (addListener ''archive'' (run one_project init)))))"
proof -
  have m: "moves (ascii ''0.5'') Finished
     (run [AddProject (ascii ''0.75'') barn] (addListener ''archive'' (run one_project init)))"
    by code_simp
  from addListener_registers_only [of "''archive''" "run one_project init"
        "[AddProject (ascii ''0.75'') barn]" "ascii ''0.5''" shed "ascii ''0.5''" Finished] m
  have "calls (addListener ''archive'' (run one_project init)) = calls (run one_project init) \<and>
   store_records (addListener ''archive'' (run one_project init)) = store_records (run one_project init) \<and>
   ''archive'' \<in> fst ` set (new_calls
       (run [AddProject (ascii ''0.75'') barn] (addListener ''archive'' (run one_project init)))
       (moveProject (ascii ''0.5'') Finished
          (run [AddProject (ascii ''0.75'') barn] (addListener ''archive'' (run one_project init)))))"
    by blast
  then show ?thesis unfolding ex_calls .
qed

text \<open>
  C10. For a string of white space only (the empty string is one), \<open>validate\<close>
  with \<open>required\<close> set returns false. So when the title or the description of the
  form is white space only, \<open>gatherUserInput\<close> returns nothing and the submit
  handler adds no project.
\<close>

theorem whitespace_only_is_rejected:
  "((\<forall>c \<in> set s. isWhiteSpace c) \<and> value_f input = Str s \<and> required input = Some True
      \<longrightarrow> \<not> validate b input) \<and>
   ((\<forall>c \<in> set (titleInputEl (project pg)). isWhiteSpace c) \<or>
    (\<forall>c \<in> set (descriptionInputEl (project pg)). isWhiteSpace c)
      \<longrightarrow> fst (gatherUserInput b pg) = None \<and>
          submitHandler b rid pg = pg\<lparr>console := console pg @ [''Input is wrong!'']\<rparr>)"
proof -
  have v: "\<not> validate b input"
    if "\<forall>c \<in> set s. isWhiteSpace c" "value_f input = Str s" "required input = Some True"
    using validate_required [of b input] that by (auto simp: toString_def trim_whitespace)
  have g: "\<not> accepts b (project pg)"
    if "(\<forall>c \<in> set (titleInputEl (project pg)). isWhiteSpace c) \<or>
        (\<forall>c \<in> set (descriptionInputEl (project pg)). isWhiteSpace c)"
    using that by (auto simp: accepts_def trim_whitespace)
  show ?thesis using v g by (auto simp: gatherUserInput_eq submitHandler_eq)
qed

theorem whitespace_only_is_rejected_witness:
  "\<not> validate example_builtins
       \<lparr>value_f = Str [0x20, 0x09, 0xA0], required = Some True, minLength = None,
        maxLength = None, min_f = None, max_f = None\<rparr> \<and>
   \<not> validate example_builtins
       \<lparr>value_f = Str [], required = Some True, minLength = None,
        maxLength = None, min_f = None, max_f = None\<rparr> \<and>
   fst (gatherUserInput example_builtins blank_title_page) = None"
proof -
  have t: "titleInputEl (project blank_title_page) = [0x20]"
    by (simp add: blank_title_page_def ascii_def)
  show ?thesis
    using whitespace_only_is_rejected [where s = "[0x20, 0x09, 0xA0]"
        and input = "\<lparr>value_f = Str [0x20, 0x09, 0xA0], required = Some True, minLength = None,
        maxLength = None, min_f = None, max_f = None\<rparr>"
        and pg = blank_title_page and b = example_builtins and rid = "ascii ''0.5''"]
      whitespace_only_is_rejected [where s = "[]"
        and input = "\<lparr>value_f = Str [], required = Some True, minLength = None,
        maxLength = None, min_f = None, max_f = None\<rparr>"
        and pg = blank_title_page and b = example_builtins and rid = "ascii ''0.5''"]
    by (simp add: t isWhiteSpace_def)
qed

end
